theory Spec2Isabelle
  imports Main "HOL-Library.Word"
begin

unbundle bit_operations_syntax

section \<open>Python values and library calls used by testDHCP.py\<close>

text \<open>
  The exceptions the modelled code can raise. \<open>struct.error\<close> is \<open>StructError\<close>;
  the others carry their Python names.
\<close>

datatype pyexc = StructError | ValueError | TypeError | OSError | IndexError | BlockingIOError

type_synonym byte = "8 word"
type_synonym bytes = "byte list"

text \<open>Sequencing of calls that may raise: the first exception ends the computation.\<close>

definition bindE :: "pyexc + 'a \<Rightarrow> ('a \<Rightarrow> pyexc + 'b) \<Rightarrow> pyexc + 'b" where
  "bindE m f = (case m of Inl e \<Rightarrow> Inl e | Inr v \<Rightarrow> f v)"

fun concatE :: "(pyexc + 'a list) list \<Rightarrow> pyexc + 'a list" where
  "concatE [] = Inr []"
| "concatE (m # ms) = bindE m (\<lambda>b. bindE (concatE ms) (\<lambda>bs. Inr (b @ bs)))"

fun mapE :: "('a \<Rightarrow> pyexc + 'b) \<Rightarrow> 'a list \<Rightarrow> pyexc + 'b list" where
  "mapE f [] = Inr []"
| "mapE f (x # xs) = bindE (f x) (\<lambda>y. bindE (mapE f xs) (\<lambda>ys. Inr (y # ys)))"

text \<open>\<open>xs[a:b]\<close> for indices that are not negative: Python clips the slice to the data.\<close>

definition slice :: "nat \<Rightarrow> nat \<Rightarrow> 'a list \<Rightarrow> 'a list" where
  "slice a b xs = take (b - a) (drop a xs)"

text \<open>\<open>xs[i]\<close> for an index that is not negative: IndexError out of range.\<close>

definition index :: "'a list \<Rightarrow> nat \<Rightarrow> pyexc + 'a" where
  "index xs i = (if i < length xs then Inr (xs ! i) else Inl IndexError)"

text \<open>\<open>bytes([v1, ...])\<close>: ValueError unless every value is in \<open>range(256)\<close>.\<close>

definition bytes_of_ints :: "int list \<Rightarrow> pyexc + bytes" where
  "bytes_of_ints vs =
     (if list_all (\<lambda>v. 0 \<le> v \<and> v < 256) vs then Inr (map word_of_int vs) else Inl ValueError)"

text \<open>\<open>bs.ljust(n, b'\x00')\<close> and \<open>bs.rstrip(b'\x00')\<close>.\<close>

definition ljust :: "nat \<Rightarrow> bytes \<Rightarrow> bytes" where
  "ljust n bs = bs @ replicate (n - length bs) 0"

definition rstrip0 :: "bytes \<Rightarrow> bytes" where
  "rstrip0 bs = rev (dropWhile (\<lambda>b. b = 0) (rev bs))"

subsection \<open>struct: big-endian unsigned integers and fixed-size byte strings\<close>

fun be_bytes :: "nat \<Rightarrow> int \<Rightarrow> bytes" where
  "be_bytes 0 v = []"
| "be_bytes (Suc n) v = be_bytes n (v div 256) @ [word_of_int (v mod 256)]"

definition be_int :: "bytes \<Rightarrow> int" where
  "be_int bs = foldl (\<lambda>acc b. acc * 256 + uint b) 0 bs"

text \<open>
  \<open>struct.pack\<close> of one \<open>B\<close>, \<open>H\<close> or \<open>L\<close> field (\<open>n\<close> = 1, 2, 4 bytes):
  \<open>struct.error\<close> when the number does not fit.
\<close>

definition pack_uint :: "nat \<Rightarrow> int \<Rightarrow> pyexc + bytes" where
  "pack_uint n v = (if 0 \<le> v \<and> v < 256 ^ n then Inr (be_bytes n v) else Inl StructError)"

text \<open>\<open>struct.pack\<close> of one \<open>ns\<close> field: the bytes are cut or zero-padded to \<open>n\<close>.\<close>

definition pack_s :: "nat \<Rightarrow> bytes \<Rightarrow> bytes" where
  "pack_s n bs = take n bs @ replicate (n - length bs) 0"

text \<open>
  \<open>struct.unpack\<close> of a single unsigned field of \<open>n\<close> bytes: \<open>struct.error\<close> unless the
  buffer has exactly \<open>n\<close> bytes.
\<close>

definition unpack_uint :: "nat \<Rightarrow> bytes \<Rightarrow> pyexc + int" where
  "unpack_uint n bs = (if length bs = n then Inr (be_int bs) else Inl StructError)"

text \<open>\<open>struct.unpack('!l', bs)[0]\<close>: the same four bytes read as two's complement.\<close>

definition unpack_l :: "bytes \<Rightarrow> pyexc + int" where
  "unpack_l bs =
     bindE (unpack_uint 4 bs) (\<lambda>u. Inr (if u < 2 ^ 31 then u else u - 2 ^ 32))"

subsection \<open>Text: str(int), hex(), decode('ascii', errors='ignore'), join\<close>

definition digit_char :: "nat \<Rightarrow> char" where
  "digit_char d = char_of (48 + d)"

function str_nat :: "nat \<Rightarrow> string" where
  "str_nat n = (if n < 10 then [digit_char n] else str_nat (n div 10) @ [digit_char (n mod 10)])"
  by pat_completeness auto
termination
  by (relation "measure (\<lambda>n. n)") auto

declare str_nat.simps [simp del]

definition str_int :: "int \<Rightarrow> string" where
  "str_int v = (if v < 0 then CHR ''-'' # str_nat (nat (- v)) else str_nat (nat v))"

text \<open>The format \<open>{v:+d}\<close>: the sign is always written.\<close>

definition str_int_plus :: "int \<Rightarrow> string" where
  "str_int_plus v = (if v < 0 then str_int v else CHR ''+'' # str_int v)"

definition hex_char :: "nat \<Rightarrow> char" where
  "hex_char d = (if d < 10 then char_of (48 + d) else char_of (87 + d))"

definition hex :: "bytes \<Rightarrow> string" where
  "hex bs = concat (map (\<lambda>b. [hex_char (unat b div 16), hex_char (unat b mod 16)]) bs)"

definition decode_ascii_ignore :: "bytes \<Rightarrow> string" where
  "decode_ascii_ignore bs = map (\<lambda>b. char_of (unat b)) (filter (\<lambda>b. b < 128) bs)"

fun join :: "string \<Rightarrow> string list \<Rightarrow> string" where
  "join sep [] = []"
| "join sep [s] = s"
| "join sep (s # t # ss) = s @ sep @ join sep (t # ss)"

subsection \<open>socket.inet_ntoa and socket.inet_aton\<close>

text \<open>\<open>socket.inet_ntoa(bs)\<close>: OSError unless \<open>bs\<close> has four bytes.\<close>

definition inet_ntoa :: "bytes \<Rightarrow> pyexc + string" where
  "inet_ntoa bs =
     (if length bs = 4 then Inr (join ''.'' (map (\<lambda>b. str_nat (unat b)) bs)) else Inl OSError)"

text \<open>
  \<open>socket.inet_aton(s)\<close> on a str hands the text to the C library's parser, which is not
  part of the repository. The functions below take it as the parameter \<open>aton\<close>: \<open>None\<close>
  is the OSError for an illegal address string, \<open>Some bs\<close> the packed address.
  \<open>aton_dotted\<close> is not that parser. It reads the canonical form only, four decimal
  numbers below 256 without leading zeros, where it agrees with \<open>inet_aton\<close>, and it
  returns \<open>None\<close> on every other string, also on the short, octal and hexadecimal forms
  that \<open>inet_aton\<close> accepts (\<open>127.1\<close>, \<open>010.0.0.1\<close>). It is used only to
  instantiate \<open>aton\<close> in examples whose address fields are canonical.
\<close>

definition dec_byte :: "string \<Rightarrow> byte option" where
  "dec_byte s =
     (if s \<noteq> [] \<and> length s \<le> 3 \<and> list_all (\<lambda>c. 48 \<le> (of_char c :: nat) \<and> (of_char c :: nat) < 58) s
         \<and> (length s = 1 \<or> hd s \<noteq> CHR ''0'')
         \<and> foldl (\<lambda>acc c. acc * 10 + ((of_char c :: nat) - 48)) 0 s < 256
      then Some (of_nat (foldl (\<lambda>acc c. acc * 10 + ((of_char c :: nat) - 48)) 0 s))
      else None)"

fun split_dots :: "string \<Rightarrow> string \<Rightarrow> string list" where
  "split_dots acc [] = [rev acc]"
| "split_dots acc (c # cs) =
     (if c = CHR ''.'' then rev acc # split_dots [] cs else split_dots (c # acc) cs)"

definition aton_dotted :: "string \<Rightarrow> bytes option" where
  "aton_dotted s =
     (let parts = map dec_byte (split_dots [] s)
      in if length parts = 4 \<and> list_all (\<lambda>p. p \<noteq> None) parts then Some (map the parts) else None)"

text \<open>\<open>struct.unpack('!L', socket.inet_aton(s))[0]\<close>, as \<open>pack\<close> writes it four times.\<close>

definition inet_aton_L :: "(string \<Rightarrow> bytes option) \<Rightarrow> string \<Rightarrow> pyexc + int" where
  "inet_aton_L aton s = (case aton s of None \<Rightarrow> Inl OSError | Some a \<Rightarrow> unpack_uint 4 a)"

text \<open>
  \<open>socket.inet_aton(bs)\<close> with a bytes object, as line 409 calls it: the argument must
  be a str, and CPython 3 raises TypeError before it parses anything.
\<close>

definition inet_aton_of_bytes :: "bytes \<Rightarrow> pyexc + bytes" where
  "inet_aton_of_bytes bs = Inl TypeError"

section \<open>DHCPPacket\<close>

definition DHCP_MAGIC_COOKIE :: bytes where
  "DHCP_MAGIC_COOKIE = [0x63, 0x82, 0x53, 0x63]"

record DHCPPacket =
  op :: int
  htype :: int
  hlen :: int
  hops :: int
  xid :: int
  secs :: int
  flags :: int
  ciaddr :: string
  yiaddr :: string
  siaddr :: string
  giaddr :: string
  chaddr :: bytes
  sname :: bytes
  file_fld :: bytes
  options :: "(int \<times> bytes) list"

text \<open>
  \<open>__init__\<close>. An argument left at its default \<open>None\<close> is \<open>None\<close> here. \<open>rnd\<close> is the
  number \<open>random.randint(0, 0xFFFFFFFF)\<close> returns when \<open>xid or ...\<close> calls it, that is
  when \<open>xid\<close> is \<open>None\<close> or 0.
\<close>

definition DHCPPacket_init ::
  "int \<Rightarrow> int \<Rightarrow> int \<Rightarrow> int \<Rightarrow> int \<Rightarrow> int option \<Rightarrow> int \<Rightarrow> int \<Rightarrow>
   string \<Rightarrow> string \<Rightarrow> string \<Rightarrow> string \<Rightarrow> bytes option \<Rightarrow> bytes \<Rightarrow> bytes \<Rightarrow>
   (int \<times> bytes) list option \<Rightarrow> DHCPPacket" where
  "DHCPPacket_init rnd op_a htype_a hlen_a hops_a xid_a secs_a flags_a
                   ciaddr_a yiaddr_a siaddr_a giaddr_a chaddr_a sname_a file_a options_a =
     \<lparr> op = op_a, htype = htype_a, hlen = hlen_a, hops = hops_a,
       xid = (case xid_a of None \<Rightarrow> rnd | Some x \<Rightarrow> if x \<noteq> 0 then x else rnd),
       secs = secs_a, flags = flags_a,
       ciaddr = ciaddr_a, yiaddr = yiaddr_a, siaddr = siaddr_a, giaddr = giaddr_a,
       chaddr = (case chaddr_a of None \<Rightarrow> replicate 16 0
                 | Some c \<Rightarrow> if c \<noteq> [] then c else replicate 16 0),
       sname = ljust 64 sname_a, file_fld = ljust 128 file_a,
       options = (case options_a of None \<Rightarrow> [] | Some os \<Rightarrow> if os \<noteq> [] then os else []) \<rparr>"

text \<open>The option loop of \<open>pack\<close> (lines 93-100).\<close>

fun pack_options :: "(int \<times> bytes) list \<Rightarrow> pyexc + bytes" where
  "pack_options [] = Inr []"
| "pack_options ((opt_code, opt_data) # rest) =
     bindE (if opt_code = 0 then bytes_of_ints [opt_code]
            else if opt_code = 255 then bytes_of_ints [opt_code]
            else bindE (bytes_of_ints [opt_code, int (length opt_data)])
                   (\<lambda>h. Inr (h @ opt_data)))
       (\<lambda>b. bindE (pack_options rest) (\<lambda>bs. Inr (b @ bs)))"

text \<open>Lines 93-103: the option loop, then the End byte unless an entry has code 255.\<close>

definition pack_option_section :: "(int \<times> bytes) list \<Rightarrow> pyexc + bytes" where
  "pack_option_section opts =
     bindE (pack_options opts) (\<lambda>bs.
       Inr (bs @ (if \<not> list_ex (\<lambda>opt. fst opt = 255) opts then [0xff] else [])))"

text \<open>
  \<open>pack\<close>. Python evaluates the four \<open>inet_aton\<close> arguments before \<open>struct.pack\<close> checks
  any field; the magic cookie and the options follow the 236 bytes.
\<close>

definition pack :: "(string \<Rightarrow> bytes option) \<Rightarrow> DHCPPacket \<Rightarrow> pyexc + bytes" where
  "pack aton m =
     bindE (inet_aton_L aton (ciaddr m)) (\<lambda>ci.
     bindE (inet_aton_L aton (yiaddr m)) (\<lambda>yi.
     bindE (inet_aton_L aton (siaddr m)) (\<lambda>si.
     bindE (inet_aton_L aton (giaddr m)) (\<lambda>gi.
     bindE (concatE
              [pack_uint 1 (op m), pack_uint 1 (htype m), pack_uint 1 (hlen m),
               pack_uint 1 (hops m), pack_uint 4 (xid m), pack_uint 2 (secs m),
               pack_uint 2 (flags m), pack_uint 4 ci, pack_uint 4 yi, pack_uint 4 si,
               pack_uint 4 gi, Inr (pack_s 16 (chaddr m)), Inr (pack_s 64 (sname m)),
               Inr (pack_s 128 (file_fld m))]) (\<lambda>packet.
     bindE (pack_option_section (options m)) (\<lambda>opts.
       Inr (packet @ DHCP_MAGIC_COOKIE @ opts)))))))"

text \<open>\<open>_parse_options\<close>: the index \<open>i\<close> of the loop is the start of the remaining bytes.\<close>

fun parse_options :: "bytes \<Rightarrow> (int \<times> bytes) list" where
  "parse_options [] = []"
| "parse_options (opt_code # rest) =
     (if opt_code = 0 then parse_options rest
      else if opt_code = 255 then []
      else (case rest of
              [] \<Rightarrow> []
            | opt_len # rest' \<Rightarrow>
                (uint opt_code, take (unat opt_len) rest')
                  # parse_options (drop (unat opt_len) rest')))"

text \<open>
  \<open>unpack\<close>: \<open>struct.unpack\<close> wants exactly 236 bytes in \<open>data[:236]\<close>; the options are
  \<open>data[240:]\<close>, whatever the four bytes before them are.
\<close>

definition ntoa_L :: "int \<Rightarrow> pyexc + string" where
  "ntoa_L v = bindE (pack_uint 4 v) inet_ntoa"

definition unpack :: "int \<Rightarrow> bytes \<Rightarrow> pyexc + DHCPPacket" where
  "unpack rnd data =
     (let hdr = slice 0 236 data in
      if length hdr \<noteq> 236 then Inl StructError
      else
        bindE (ntoa_L (be_int (slice 12 16 hdr))) (\<lambda>ci.
        bindE (ntoa_L (be_int (slice 16 20 hdr))) (\<lambda>yi.
        bindE (ntoa_L (be_int (slice 20 24 hdr))) (\<lambda>si.
        bindE (ntoa_L (be_int (slice 24 28 hdr))) (\<lambda>gi.
          Inr ((DHCPPacket_init rnd
                  (be_int (slice 0 1 hdr)) (be_int (slice 1 2 hdr))
                  (be_int (slice 2 3 hdr)) (be_int (slice 3 4 hdr))
                  (Some (be_int (slice 4 8 hdr)))
                  (be_int (slice 8 10 hdr)) (be_int (slice 10 12 hdr))
                  ci yi si gi
                  (Some (slice 28 44 hdr))
                  (rstrip0 (slice 44 108 hdr)) (rstrip0 (slice 108 236 hdr))
                  None)
               \<lparr> options := parse_options (drop 240 data) \<rparr>))))))"

section \<open>DHCPListener.receive\<close>

text \<open>
  What one pass of lines 209-246 does with a captured frame: \<open>Skip\<close> is a \<open>continue\<close>,
  \<open>Caught e\<close> is an exception that the handler of line 250 reports before it continues,
  \<open>Got v\<close> is a value that goes on.
\<close>

datatype 'a outcome = Skip | Caught pyexc | Got 'a

text \<open>Lines 209-237: from the frame to the DHCP bytes inside it.\<close>

definition extract_dhcp :: "bytes \<Rightarrow> bytes outcome" where
  "extract_dhcp packet =
     (if length packet < 14 then Skip
      else
        let ip_header = drop 14 packet in
        case index ip_header 9 of
          Inl e \<Rightarrow> Caught e
        | Inr proto \<Rightarrow>
            if proto \<noteq> 17 then Skip
            else
              (case index ip_header 0 of
                 Inl e \<Rightarrow> Caught e
               | Inr b0 \<Rightarrow>
                   let ip_hlen = unat (b0 AND 0x0F) * 4;
                       udp_header = drop ip_hlen ip_header in
                   (case unpack_uint 2 (slice 0 2 udp_header) of
                      Inl e \<Rightarrow> Caught e
                    | Inr src_port \<Rightarrow>
                        (case unpack_uint 2 (slice 2 4 udp_header) of
                           Inl e \<Rightarrow> Caught e
                         | Inr dst_port \<Rightarrow>
                             if src_port \<noteq> 67 \<or> dst_port \<noteq> 68 then Skip
                             else
                               (case unpack_uint 2 (slice 4 6 udp_header) of
                                  Inl e \<Rightarrow> Caught e
                                | Inr udp_length \<Rightarrow>
                                    let dhcp_data =
                                          slice 8 (nat (8 + udp_length - 8)) udp_header in
                                    if length dhcp_data < 240 then Skip
                                    else Got dhcp_data)))))"

text \<open>Lines 239-246: decode, then the XID filter. \<open>rnd\<close> is the constructor's random number.\<close>

definition receive_frame :: "int option \<Rightarrow> int \<Rightarrow> bytes \<Rightarrow> DHCPPacket outcome" where
  "receive_frame xid_filter rnd packet =
     (case extract_dhcp packet of
        Skip \<Rightarrow> Skip
      | Caught e \<Rightarrow> Caught e
      | Got dhcp_data \<Rightarrow>
          (case unpack rnd dhcp_data of
             Inl e \<Rightarrow> Caught e
           | Inr dhcp_packet \<Rightarrow>
               if xid_filter \<noteq> None \<and> Some (xid dhcp_packet) \<noteq> xid_filter then Skip
               else Got dhcp_packet))"

text \<open>
  One turn of the \<open>while\<close> loop: \<open>select\<close> reports nothing, or \<open>recv\<close> raises, or
  \<open>recv\<close> returns a frame. The loop runs while the clock is below the deadline, so a
  call sees a finite list of turns; when the list ends the deadline has passed.
\<close>

datatype event = NotReady | RecvRaises pyexc | Recv bytes int

fun receive_loop :: "int option \<Rightarrow> event list \<Rightarrow> DHCPPacket option" where
  "receive_loop xid_filter [] = None"
| "receive_loop xid_filter (NotReady # evs) = receive_loop xid_filter evs"
| "receive_loop xid_filter (RecvRaises e # evs) = receive_loop xid_filter evs"
| "receive_loop xid_filter (Recv packet rnd # evs) =
     (case receive_frame xid_filter rnd packet of
        Got dhcp_packet \<Rightarrow> Some dhcp_packet
      | _ \<Rightarrow> receive_loop xid_filter evs)"

definition receive :: "bool \<Rightarrow> int option \<Rightarrow> event list \<Rightarrow> DHCPPacket option" where
  "receive socket_open xid_filter evs =
     (if \<not> socket_open then None else receive_loop xid_filter evs)"

text \<open>The message a turn of the loop decodes, if it gets as far as line 240 and past it.\<close>

fun decode_event :: "event \<Rightarrow> DHCPPacket option" where
  "decode_event (Recv packet rnd) =
     (case extract_dhcp packet of
        Got dhcp_data \<Rightarrow> (case unpack rnd dhcp_data of Inr p \<Rightarrow> Some p | Inl e \<Rightarrow> None)
      | _ \<Rightarrow> None)"
| "decode_event _ = None"

text \<open>
  The header fields lines 216-231 read, at the places where they read them: \<open>None\<close> when
  the frame is too short for the field.
\<close>

definition frame_proto :: "bytes \<Rightarrow> byte option" where
  "frame_proto packet = (if 23 < length packet then Some (packet ! 23) else None)"

definition frame_udp :: "bytes \<Rightarrow> bytes option" where
  "frame_udp packet =
     (if 23 < length packet then Some (drop (14 + unat (packet ! 14 AND 0x0F) * 4) packet)
      else None)"

definition frame_ports :: "bytes \<Rightarrow> (int \<times> int) option" where
  "frame_ports packet =
     (case frame_udp packet of
        None \<Rightarrow> None
      | Some u \<Rightarrow> if 4 \<le> length u then Some (be_int (take 2 u), be_int (take 2 (drop 2 u)))
                  else None)"

definition frame_udp_length :: "bytes \<Rightarrow> int option" where
  "frame_udp_length packet =
     (case frame_udp packet of
        None \<Rightarrow> None
      | Some u \<Rightarrow> if 6 \<le> length u then Some (be_int (take 2 (drop 4 u))) else None)"

definition frame_src_port :: "bytes \<Rightarrow> int option" where
  "frame_src_port packet =
     (case frame_udp packet of
        None \<Rightarrow> None
      | Some u \<Rightarrow> if 2 \<le> length u then Some (be_int (take 2 u)) else None)"

section \<open>scan_dhcp_options\<close>

definition msg_types :: "bytes \<Rightarrow> string option" where
  "msg_types =
     map_of [([0x01], ''DISCOVER''), ([0x02], ''OFFER''), ([0x03], ''REQUEST''),
             ([0x05], ''ACK''), ([0x06], ''NAK'')]"

text \<open>
  The words of the format strings that are not ASCII, as their UTF-8 bytes: \<open>sek\<close>,
  \<open>ch\<close> and \<open>m\<close> are the Russian abbreviations for seconds, hours and minutes.
\<close>

definition txt_sek :: string where
  "txt_sek = [CHR 0xD1, CHR 0x81, CHR 0xD0, CHR 0xB5, CHR 0xD0, CHR 0xBA]"

definition txt_ch :: string where
  "txt_ch = [CHR 0xD1, CHR 0x87]"

definition txt_m :: string where
  "txt_m = [CHR 0xD0, CHR 0xBC]"

text \<open>\<open>range(0, n, 4)\<close>.\<close>

definition range4 :: "nat \<Rightarrow> nat list" where
  "range4 n = map (\<lambda>k. 4 * k) [0..<(n + 3) div 4]"

text \<open>The body of the loop of lines 393-421: the value stored for one option.\<close>

definition interpret_option :: "int \<Rightarrow> bytes \<Rightarrow> pyexc + string" where
  "interpret_option opt_code opt_data =
     (if opt_code = 53 \<and> opt_data \<noteq> [] then
        Inr (case msg_types opt_data of
               Some s \<Rightarrow> s
             | None \<Rightarrow> ''Unknown ('' @ hex opt_data @ '')'')
      else if opt_code = 2 then
        (if 4 \<le> length opt_data then
           bindE (unpack_l (slice 0 4 opt_data)) (\<lambda>offset.
             let hours = offset div 3600; minutes = (offset mod 3600) div 60 in
             Inr (str_int offset @ '' '' @ txt_sek @ '' ('' @ str_int_plus hours @ txt_ch
                  @ '' '' @ str_int minutes @ txt_m @ '')''))
         else Inr (''0x'' @ hex opt_data))
      else if opt_code \<in> set [1, 3, 6, 28, 42, 54] \<and> length opt_data mod 4 = 0 then
        bindE (mapE (\<lambda>i. bindE (inet_aton_of_bytes (slice i (i + 4) opt_data)) inet_ntoa)
                 (range4 (length opt_data)))
          (\<lambda>ips. Inr (join '', '' ips))
      else if opt_code \<in> set [51, 58, 59] \<and> length opt_data = 4 then
        bindE (unpack_uint 4 opt_data) (\<lambda>seconds. Inr (str_int seconds @ '' '' @ txt_sek))
      else if opt_data \<noteq> [] then Inr (decode_ascii_ignore opt_data)
      else Inr ''Present'')"

text \<open>The loop itself: a later entry with the same code replaces the earlier value.\<close>

fun interpret_options ::
  "(int \<times> bytes) list \<Rightarrow> (int \<rightharpoonup> string) \<Rightarrow> pyexc + (int \<rightharpoonup> string)" where
  "interpret_options [] parsed_options = Inr parsed_options"
| "interpret_options ((opt_code, opt_data) # rest) parsed_options =
     bindE (interpret_option opt_code opt_data)
       (\<lambda>v. interpret_options rest (parsed_options(opt_code \<mapsto> v)))"

record scan_result =
  response :: DHCPPacket
  parsed :: "int \<rightharpoonup> string"
  interface :: string
  mac :: bytes

text \<open>
  \<open>scan_dhcp_options\<close>, from the platform's side: \<open>start_ok\<close> is what \<open>listener.start()\<close>
  returns, \<open>send_raises\<close> the exception, if any, that opening, binding or writing the
  sending socket raises (lines 365-380), \<open>evs\<close> the turns of the receive loop. \<open>None\<close>
  is the function's \<open>return None\<close>.
\<close>

definition scan_dhcp_options ::
  "string \<Rightarrow> bytes \<Rightarrow> int \<Rightarrow> bool \<Rightarrow> pyexc option \<Rightarrow> event list \<Rightarrow> scan_result option" where
  "scan_dhcp_options iface mac_a xid_a start_ok send_raises evs =
     (if \<not> start_ok then None
      else
        case send_raises of
          Some e \<Rightarrow> None
        | None \<Rightarrow>
            (case receive True (Some xid_a) evs of
               None \<Rightarrow> None
             | Some resp \<Rightarrow>
                 (case interpret_options (options resp) Map.empty of
                    Inl e \<Rightarrow> None
                  | Inr parsed_options \<Rightarrow>
                      Some \<lparr> response = resp, parsed = parsed_options,
                             interface = iface, mac = mac_a \<rparr>)))"

text \<open>
  The three terminal states the specification names, read off the same inputs: a failed
  start or a failed send is a channel error, a receive loop that ends empty is a timeout.
\<close>

datatype terminal = Matched | TimedOut | ChannelError

definition spec_terminal :: "bool \<Rightarrow> pyexc option \<Rightarrow> int \<Rightarrow> event list \<Rightarrow> terminal" where
  "spec_terminal start_ok send_raises xid_a evs =
     (if \<not> start_ok \<or> send_raises \<noteq> None then ChannelError
      else if receive True (Some xid_a) evs = None then TimedOut
      else Matched)"

section \<open>What the option encoder writes\<close>

text \<open>
  The bytes of one entry, and the entries the loop of \<open>pack\<close> gets through without an
  exception: \<open>bytes([opt_code, opt_len])\<close> wants both numbers below 256, and codes 0 and
  255 are written alone, whatever their data.
\<close>

definition enc_option :: "int \<times> bytes \<Rightarrow> bytes" where
  "enc_option opt =
     (if fst opt = 0 \<or> fst opt = 255 then [word_of_int (fst opt)]
      else word_of_int (fst opt) # of_nat (length (snd opt)) # snd opt)"

definition option_ok :: "int \<times> bytes \<Rightarrow> bool" where
  "option_ok opt =
     (fst opt = 0 \<or> fst opt = 255
      \<or> (0 \<le> fst opt \<and> fst opt < 256 \<and> length (snd opt) < 256))"

section \<open>create_dhcp_discover\<close>

text \<open>
  \<open>create_dhcp_discover\<close>: the message the scanner sends. The texts of options 12 and
  60 are \<open>dhcp-scanner\<close> and \<open>python-scanner\<close>.
\<close>

definition create_dhcp_discover :: "int \<Rightarrow> bytes \<Rightarrow> int \<Rightarrow> DHCPPacket" where
  "create_dhcp_discover rnd mac_a xid_a =
     DHCPPacket_init rnd 1 1 6 0 (Some xid_a) 0 0 ''0.0.0.0'' ''0.0.0.0'' ''0.0.0.0'' ''0.0.0.0''
       (Some (ljust 16 mac_a)) [] []
       (Some [(53, [0x01]),
              (55, [1, 2, 3, 6, 12, 15, 28, 42, 51, 54, 58, 59, 101, 102]),
              (61, 0x01 # mac_a),
              (12, [0x64, 0x68, 0x63, 0x70, 0x2d, 0x73, 0x63, 0x61, 0x6e, 0x6e, 0x65, 0x72]),
              (60, [0x70, 0x79, 0x74, 0x68, 0x6f, 0x6e, 0x2d, 0x73, 0x63, 0x61, 0x6e, 0x6e,
                    0x65, 0x72]),
              (255, [])])"


section \<open>Well-formed messages, and the frames used as examples\<close>

text \<open>
  An address field is canonical when it is the text \<open>inet_ntoa\<close> prints for the address
  \<open>inet_aton\<close> reads from it. A message is well formed when every number fits its field
  of the \<open>struct\<close> format, the transaction id is not 0, the addresses are canonical, and
  the byte fields have the sizes \<open>__init__\<close> and \<open>create_dhcp_discover\<close> give them.
  An option is plain when it is neither Pad nor End and fits the one-byte code and length.
\<close>

definition canonical :: "(string \<Rightarrow> bytes option) \<Rightarrow> string \<Rightarrow> bool" where
  "canonical aton s =
     (case aton s of None \<Rightarrow> False | Some a \<Rightarrow> length a = 4 \<and> inet_ntoa a = Inr s)"

definition well_formed :: "(string \<Rightarrow> bytes option) \<Rightarrow> DHCPPacket \<Rightarrow> bool" where
  "well_formed aton m =
     (0 \<le> op m \<and> op m < 256 \<and> 0 \<le> htype m \<and> htype m < 256
      \<and> 0 \<le> hlen m \<and> hlen m < 256 \<and> 0 \<le> hops m \<and> hops m < 256
      \<and> 0 < xid m \<and> xid m < 4294967296
      \<and> 0 \<le> secs m \<and> secs m < 65536 \<and> 0 \<le> flags m \<and> flags m < 65536
      \<and> canonical aton (ciaddr m) \<and> canonical aton (yiaddr m)
      \<and> canonical aton (siaddr m) \<and> canonical aton (giaddr m)
      \<and> length (chaddr m) = 16 \<and> length (sname m) = 64 \<and> length (file_fld m) = 128)"

definition plain_option :: "int \<times> bytes \<Rightarrow> bool" where
  "plain_option opt = (1 \<le> fst opt \<and> fst opt \<le> 254 \<and> length (snd opt) \<le> 255)"

definition header_bytes :: "bytes \<Rightarrow> bytes \<Rightarrow> bytes \<Rightarrow> bytes \<Rightarrow> DHCPPacket \<Rightarrow> bytes" where
  "header_bytes a1 a2 a3 a4 m =
     be_bytes 1 (op m) @ be_bytes 1 (htype m) @ be_bytes 1 (hlen m) @ be_bytes 1 (hops m)
     @ be_bytes 4 (xid m) @ be_bytes 2 (secs m) @ be_bytes 2 (flags m)
     @ a1 @ a2 @ a3 @ a4 @ chaddr m @ sname m @ file_fld m"


text \<open>
  A captured reply: Ethernet and IPv4 headers, UDP from port 67 to port 68 with length
  252, then a DHCP message of 244 bytes with the given \<open>op\<close> byte, transaction id and
  message type (option 53), offering 192.168.1.50. \<open>reply_packet\<close> is the message in it.
\<close>

definition reply_frame :: "byte \<Rightarrow> bytes \<Rightarrow> byte \<Rightarrow> bytes" where
  "reply_frame op_b xid_b msg_type =
     replicate 12 0 @ [0x08, 0x00]
     @ [0x45, 0, 0x01, 0x10, 0, 0, 0, 0, 64, 17, 0, 0, 192, 168, 1, 1, 255, 255, 255, 255]
     @ [0, 67, 0, 68, 0, 252, 0, 0]
     @ [op_b, 1, 6, 0] @ xid_b @ replicate 8 0 @ [192, 168, 1, 50] @ replicate 8 0
     @ [0xaa, 0xbb, 0xcc, 0xdd, 0xee, 0xff] @ replicate 10 0 @ replicate 192 0
     @ DHCP_MAGIC_COOKIE @ [53, 1, msg_type, 255]"

definition reply_packet :: "int \<Rightarrow> int \<Rightarrow> byte \<Rightarrow> DHCPPacket" where
  "reply_packet op_a xid_a msg_type =
     \<lparr>op = op_a, htype = 1, hlen = 6, hops = 0, xid = xid_a, secs = 0, flags = 0,
      ciaddr = ''0.0.0.0'', yiaddr = ''192.168.1.50'', siaddr = ''0.0.0.0'',
      giaddr = ''0.0.0.0'',
      chaddr = [0xaa, 0xbb, 0xcc, 0xdd, 0xee, 0xff] @ replicate 10 0,
      sname = replicate 64 0, file_fld = replicate 128 0, options = [(53, [msg_type])]\<rparr>"


text \<open>
  A frame cut off inside the UDP header: Ethernet and IPv4 headers with protocol 17, then
  the two bytes of source port 68 and nothing more.
\<close>

definition short_port_frame :: bytes where
  "short_port_frame =
     replicate 12 0 @ [0x08, 0x00]
     @ [0x45, 0, 0, 22, 0, 0, 0, 0, 64, 17, 0, 0, 10, 0, 0, 1, 10, 0, 0, 2]
     @ [0x00, 0x44]"

definition example_discover :: DHCPPacket where
  "example_discover = create_dhcp_discover 0 [0xaa, 0xbb, 0xcc, 0xdd, 0xee, 0xff] 0xdeadbeef"

section \<open>Option codec: theorems\<close>

lemma pack_options_eq:
  "pack_options opts =
     (if list_all option_ok opts then Inr (concat (map enc_option opts)) else Inl ValueError)"
proof (induction opts)
  case Nil
  show ?case by simp
next
  case (Cons opt opts)
  obtain c d where opt: "opt = (c, d)" by (cases opt)
  have ok: "option_ok (c, d)
              = (c = 0 \<or> c = 255 \<or> (0 \<le> c \<and> c < 256 \<and> length d < 256))"
    by (simp add: option_ok_def)
  have enc: "enc_option (c, d)
               = (if c = 0 \<or> c = 255 then [word_of_int c]
                  else word_of_int c # of_nat (length d) # d)"
    by (simp add: enc_option_def)
  show ?case unfolding opt using Cons.IH
    by (auto simp: ok enc bindE_def bytes_of_ints_def)
qed

text \<open>
  C4. The claim: a stream cut in the middle of an option decodes to the complete options
  before it, and the partial option is dropped. The code reads the length byte and then
  slices, and a slice is clipped to the data: the stream 53 1 02 12 5 61 ends one byte
  into an option that announces five, and the decoder returns that option with the one
  byte it found. Only an option whose length byte is missing is dropped.
\<close>

theorem C4_truncated_option_is_kept:
  "parse_options [53, 1, 0x02, 12, 5, 0x61] = [(53, [0x02]), (12, [0x61])]
   \<and> parse_options [53, 1, 0x02, 12] = [(53, [0x02])]"
  by simp

text \<open>
  C5, as the code has it. The encoder raises (ValueError, from \<open>bytes([...])\<close>) exactly
  when an entry with a code other than 0 and 255 has a code outside 0..255 or more than
  255 bytes of data. Otherwise it writes one byte for code 0 or 255, ignoring the data
  of such an entry, and code, length, data for every other entry, and it adds the End
  byte when no entry has code 255.
\<close>

theorem C5_option_section:
  "pack_option_section opts =
     (if list_all option_ok opts
      then Inr (concat (map enc_option opts)
                @ (if list_ex (\<lambda>opt. fst opt = 255) opts then [] else [0xff]))
      else Inl ValueError)"
  by (simp add: pack_option_section_def pack_options_eq bindE_def)

theorem C5_option_section_witness:
  "pack_option_section [(53, [1]), (0, [7]), (12, [0x61, 0x62])]
     = Inr [53, 1, 1, 0, 12, 2, 0x61, 0x62, 0xff]"
  using C5_option_section [of "[(53, [1]), (0, [7]), (12, [0x61, 0x62])]"]
  by (simp add: option_ok_def enc_option_def)

text \<open>
  C5, as the claim has it, fails: entries with code 0 and code 255 that carry data are
  encoded without any error.
\<close>

theorem C5_data_on_pad_and_end_counterexample:
  "pack_option_section [(0, [1]), (255, [1, 2])] = Inr [0, 255]"
  by (simp add: pack_option_section_def bindE_def bytes_of_ints_def)

section \<open>Option interpreter: theorems\<close>

text \<open>
  C2, as the code has it. For an option with a code in 1, 3, 6, 28, 42, 54 whose data
  length is not a multiple of 4, no address is decoded: the entry falls through to the
  default branch, and the value is the data decoded as ASCII with every byte above 127
  left out.
\<close>

theorem C2_not_multiple_of_four:
  "opt_code \<in> {1, 3, 6, 28, 42, 54} \<Longrightarrow> length opt_data mod 4 \<noteq> 0
   \<Longrightarrow> interpret_option opt_code opt_data = Inr (decode_ascii_ignore opt_data)"
  by (auto simp: interpret_option_def)

theorem C2_not_multiple_of_four_witness:
  "interpret_option 1 [0xFF, 0x41, 0xFF] = Inr ''A''"
  using C2_not_multiple_of_four [of 1 "[0xFF, 0x41, 0xFF]"]
  by (simp add: decode_ascii_ignore_def) code_simp

text \<open>
  C2, as the claim has it, fails twice: the subnet mask FF FF FF 00 of option 1 is not
  decoded to 255.255.255.0 (the call of line 409 raises), and three bytes FF 41 FF do not
  come out as raw bytes but as the text A.
\<close>

theorem C2_address_list_counterexample:
  "interpret_option 1 [0xFF, 0xFF, 0xFF, 0x00] = Inl TypeError
   \<and> interpret_option 1 [0xFF, 0x41, 0xFF] = Inr ''A''"
  by (simp add: interpret_option_def bindE_def inet_aton_of_bytes_def range4_def
        decode_ascii_ignore_def) code_simp

text \<open>
  C3. The claim: interpreting an option never raises. In the code, every option with a
  code in 1, 3, 6, 28, 42, 54 and a data length that is a multiple of 4 and not zero
  raises TypeError, because line 409 hands bytes to \<open>socket.inet_aton\<close>.
\<close>

theorem C3_address_option_raises:
  "opt_code \<in> {1, 3, 6, 28, 42, 54} \<Longrightarrow> opt_data \<noteq> [] \<Longrightarrow> length opt_data mod 4 = 0
   \<Longrightarrow> interpret_option opt_code opt_data = Inl TypeError"
proof -
  assume c: "opt_code \<in> {1, 3, 6, 28, 42, 54}"
    and d: "opt_data \<noteq> []"
    and l: "length opt_data mod 4 = 0"
  from d have "0 < (length opt_data + 3) div 4"
    by (cases opt_data) auto
  then obtain k where "(length opt_data + 3) div 4 = Suc k"
    by (cases "(length opt_data + 3) div 4") auto
  then have "range4 (length opt_data) = 0 # map (\<lambda>k. 4 * k) [1..<Suc k]"
    by (simp add: range4_def upt_conv_Cons del: upt_Suc)
  then have "mapE (\<lambda>i. bindE (inet_aton_of_bytes (slice i (i + 4) opt_data)) inet_ntoa)
               (range4 (length opt_data)) = Inl TypeError"
    by (simp add: bindE_def inet_aton_of_bytes_def)
  with c l show ?thesis
    by (auto simp: interpret_option_def bindE_def)
qed

theorem C3_address_option_raises_witness:
  "interpret_option 54 [192, 168, 1, 1] = Inl TypeError"
  using C3_address_option_raises [of 54 "[192, 168, 1, 1]"] by simp

section \<open>Frame demultiplexing and the receive loop: theorems\<close>

lemma unpack2_at0:
  "unpack_uint 2 (slice 0 2 u)
     = (if 2 \<le> length u then Inr (be_int (take 2 u)) else Inl StructError)"
  by (auto simp: unpack_uint_def slice_def)

lemma unpack2_at2:
  "unpack_uint 2 (slice 2 4 u)
     = (if 4 \<le> length u then Inr (be_int (take 2 (drop 2 u))) else Inl StructError)"
  by (auto simp: unpack_uint_def slice_def)

lemma unpack2_at4:
  "unpack_uint 2 (slice 4 6 u)
     = (if 6 \<le> length u then Inr (be_int (take 2 (drop 4 u))) else Inl StructError)"
  by (auto simp: unpack_uint_def slice_def)

lemma extract_dhcp_short: "length packet < 14 \<Longrightarrow> extract_dhcp packet = Skip"
  by (simp add: extract_dhcp_def)

lemma extract_dhcp_proto:
  "frame_proto packet = Some p \<Longrightarrow> p \<noteq> 17 \<Longrightarrow> extract_dhcp packet = Skip"
  by (simp add: extract_dhcp_def frame_proto_def index_def Let_def split: if_splits)

text \<open>Past the protocol check, the rest of the pass reads the UDP header only.\<close>

lemma extract_dhcp_udp:
  assumes "frame_udp packet = Some u" and "frame_proto packet = Some 17"
  shows "extract_dhcp packet =
     (case unpack_uint 2 (slice 0 2 u) of
        Inl e \<Rightarrow> Caught e
      | Inr src_port \<Rightarrow>
          (case unpack_uint 2 (slice 2 4 u) of
             Inl e \<Rightarrow> Caught e
           | Inr dst_port \<Rightarrow>
               if src_port \<noteq> 67 \<or> dst_port \<noteq> 68 then Skip
               else
                 (case unpack_uint 2 (slice 4 6 u) of
                    Inl e \<Rightarrow> Caught e
                  | Inr udp_length \<Rightarrow>
                      if length (slice 8 (nat (8 + udp_length - 8)) u) < 240 then Skip
                      else Got (slice 8 (nat (8 + udp_length - 8)) u))))"
proof -
  from assms have len: "23 < length packet"
    and u: "u = drop (14 + unat (packet ! 14 AND 0x0F) * 4) packet"
    and p: "packet ! 23 = 17"
    by (simp_all add: frame_udp_def frame_proto_def split: if_splits)
  have i9: "index (drop 14 packet) 9 = Inr 17"
    using len p by (simp add: index_def)
  have i0: "index (drop 14 packet) 0 = Inr (packet ! 14)"
    using len by (simp add: index_def)
  have d: "drop (unat (packet ! 14 AND 0x0F) * 4) (drop 14 packet) = u"
    by (simp add: u add.commute)
  have n14: "\<not> length packet < 14" using len by simp
  show ?thesis
    unfolding extract_dhcp_def Let_def i9 i0 sum.case d using n14 by simp
qed

text \<open>
  With every field that the code reads before the failing check in place, the pass ends
  in a plain \<open>continue\<close> and raises nothing.
\<close>

lemma extract_dhcp_Skip_cases:
  assumes "length packet < 14
     \<or> (\<exists>p. frame_proto packet = Some p \<and> p \<noteq> 17)
     \<or> (\<exists>s d. frame_ports packet = Some (s, d) \<and> (s \<noteq> 67 \<or> d \<noteq> 68))
     \<or> (\<exists>l. frame_udp_length packet = Some l \<and> l - 8 < 240)"
  shows "extract_dhcp packet = Skip \<and> receive_frame flt rnd packet = Skip"
proof -
  have "extract_dhcp packet = Skip"
  proof (cases "length packet < 14 \<or> (\<exists>p. frame_proto packet = Some p \<and> p \<noteq> 17)")
    case True
    then show ?thesis by (auto simp: extract_dhcp_short extract_dhcp_proto)
  next
    case False
    with assms obtain u where u: "frame_udp packet = Some u" and l4: "4 \<le> length u"
      by (auto simp: frame_ports_def frame_udp_length_def split: option.splits if_splits)
    from u have "frame_proto packet \<noteq> None"
      by (simp add: frame_udp_def frame_proto_def split: if_splits)
    with False have p: "frame_proto packet = Some 17" by auto
    note ex = extract_dhcp_udp [OF u p]
    from False assms have
      "(\<exists>s d. frame_ports packet = Some (s, d) \<and> (s \<noteq> 67 \<or> d \<noteq> 68))
       \<or> (\<exists>l. frame_udp_length packet = Some l \<and> l - 8 < 240)" by blast
    then show ?thesis
    proof
      assume "\<exists>s d. frame_ports packet = Some (s, d) \<and> (s \<noteq> 67 \<or> d \<noteq> 68)"
      then have "be_int (take 2 u) \<noteq> 67 \<or> be_int (take 2 (drop 2 u)) \<noteq> 68"
        using u l4 by (auto simp: frame_ports_def)
      then show ?thesis
        unfolding ex using l4 by (auto simp: unpack2_at0 unpack2_at2)
    next
      assume "\<exists>l. frame_udp_length packet = Some l \<and> l - 8 < 240"
      then have l6: "6 \<le> length u" and lt: "be_int (take 2 (drop 4 u)) - 8 < 240"
        using u by (auto simp: frame_udp_length_def split: if_splits)
      have "length (slice 8 (nat (8 + be_int (take 2 (drop 4 u)) - 8)) u) < 240"
        using lt by (simp add: slice_def)
      then show ?thesis
        unfolding ex using l6 by (simp add: unpack2_at0 unpack2_at2 unpack2_at4)
    qed
  qed
  then show ?thesis by (simp add: receive_frame_def)
qed

lemma extract_dhcp_Got:
  assumes g: "extract_dhcp packet = Got d"
  shows "14 \<le> length packet \<and> frame_proto packet = Some 17
         \<and> frame_ports packet = Some (67, 68)
         \<and> (\<exists>l. frame_udp_length packet = Some l \<and> 240 \<le> l - 8)"
proof -
  have n14: "\<not> length packet < 14"
    using g by (auto simp: extract_dhcp_def)
  have len: "23 < length packet"
    using g n14 by (auto simp: extract_dhcp_def index_def Let_def split: if_splits)
  have p: "frame_proto packet = Some 17"
    using g n14 len by (auto simp: extract_dhcp_def index_def Let_def frame_proto_def split: if_splits)
  obtain u where u: "frame_udp packet = Some u"
    using len by (simp add: frame_udp_def)
  note ex = extract_dhcp_udp [OF u p]
  from g have l2: "2 \<le> length u"
    unfolding ex by (auto simp: unpack2_at0 split: if_splits)
  from g l2 have l4: "4 \<le> length u"
    unfolding ex by (auto simp: unpack2_at0 unpack2_at2 split: if_splits)
  from g l4 have ports: "be_int (take 2 u) = 67" "be_int (take 2 (drop 2 u)) = 68"
    unfolding ex by (auto simp: unpack2_at0 unpack2_at2 split: if_splits)
  from g l4 ports have l6: "6 \<le> length u"
    unfolding ex by (auto simp: unpack2_at0 unpack2_at2 unpack2_at4 split: if_splits)
  from g l4 l6 ports have
    "\<not> length (slice 8 (nat (8 + be_int (take 2 (drop 4 u)) - 8)) u) < 240"
    unfolding ex by (auto simp: unpack2_at0 unpack2_at2 unpack2_at4 split: if_splits)
  then have "240 \<le> be_int (take 2 (drop 4 u)) - 8"
    by (simp add: slice_def)
  then show ?thesis
    using n14 p u l4 l6 ports by (simp add: frame_ports_def frame_udp_length_def)
qed

lemma receive_loop_not_Got:
  "\<forall>p. receive_frame flt rnd packet \<noteq> Got p
   \<Longrightarrow> receive_loop flt (Recv packet rnd # evs) = receive_loop flt evs"
  by (cases "receive_frame flt rnd packet") auto

text \<open>
  C7, as the code has it. For a frame that is shorter than 14 bytes, or whose protocol
  byte is missing or not 17, or whose UDP ports are missing or not (67, 68), or whose UDP
  length field is missing or announces fewer than 240 payload bytes, the pass gives no
  payload and no packet, and the loop goes on to the next turn: no exception leaves the
  loop. The pass ends in a plain \<open>continue\<close>, with nothing raised, when the fields read
  before the failing check are all there. When a field is cut off, its read raises
  IndexError or \<open>struct.error\<close>, which the handler of line 250 catches and reports.
\<close>

theorem C7_frame_discarded:
  "(length packet < 14 \<or> frame_proto packet \<noteq> Some 17 \<or> frame_ports packet \<noteq> Some (67, 68)
      \<or> (\<forall>l. frame_udp_length packet = Some l \<longrightarrow> l - 8 < 240)
    \<longrightarrow> (\<forall>d. extract_dhcp packet \<noteq> Got d) \<and> (\<forall>p. receive_frame flt rnd packet \<noteq> Got p)
        \<and> receive_loop flt (Recv packet rnd # evs) = receive_loop flt evs)
   \<and> (length packet < 14
      \<or> (\<exists>p. frame_proto packet = Some p \<and> p \<noteq> 17)
      \<or> (\<exists>s d. frame_ports packet = Some (s, d) \<and> (s \<noteq> 67 \<or> d \<noteq> 68))
      \<or> (\<exists>l. frame_udp_length packet = Some l \<and> l - 8 < 240)
    \<longrightarrow> extract_dhcp packet = Skip \<and> receive_frame flt rnd packet = Skip)"
proof (intro conjI impI)
  assume a: "length packet < 14 \<or> frame_proto packet \<noteq> Some 17
      \<or> frame_ports packet \<noteq> Some (67, 68)
      \<or> (\<forall>l. frame_udp_length packet = Some l \<longrightarrow> l - 8 < 240)"
  show e: "\<forall>d. extract_dhcp packet \<noteq> Got d"
  proof (intro allI notI)
    fix d assume "extract_dhcp packet = Got d"
    from extract_dhcp_Got [OF this] a show False by auto
  qed
  then show r: "\<forall>p. receive_frame flt rnd packet \<noteq> Got p"
    by (auto simp: receive_frame_def split: outcome.splits sum.splits if_splits)
  then show "receive_loop flt (Recv packet rnd # evs) = receive_loop flt evs"
    by (rule receive_loop_not_Got)
next
  assume "length packet < 14
      \<or> (\<exists>p. frame_proto packet = Some p \<and> p \<noteq> 17)
      \<or> (\<exists>s d. frame_ports packet = Some (s, d) \<and> (s \<noteq> 67 \<or> d \<noteq> 68))
      \<or> (\<exists>l. frame_udp_length packet = Some l \<and> l - 8 < 240)"
  then have "extract_dhcp packet = Skip \<and> receive_frame flt rnd packet = Skip"
    by (rule extract_dhcp_Skip_cases)
  then show "extract_dhcp packet = Skip" "receive_frame flt rnd packet = Skip" by simp_all
qed

text \<open>
  Two witnesses: the frame cut off after its source port, which is discarded by the
  handler, and a whole frame from port 68 to port 67, another host's DISCOVER, which is
  passed over.
\<close>

theorem C7_frame_discarded_witness:
  "(\<forall>d. extract_dhcp short_port_frame \<noteq> Got d)
   \<and> (\<forall>p. receive_frame (Some 7) 0 short_port_frame \<noteq> Got p)
   \<and> receive_loop (Some 7) [Recv short_port_frame 0] = None
   \<and> extract_dhcp ([0,0,0,0,0,0,0,0,0,0,0,0,8,0]
                   @ [0x45,0,0,28,0,0,0,0,64,17,0,0,10,0,0,1,10,0,0,2]
                   @ [0,68,0,67,0,8,0,0]) = Skip
   \<and> receive_frame (Some 7) 0
        ([0,0,0,0,0,0,0,0,0,0,0,0,8,0]
         @ [0x45,0,0,28,0,0,0,0,64,17,0,0,10,0,0,1,10,0,0,2]
         @ [0,68,0,67,0,8,0,0]) = Skip"
proof -
  have a: "frame_ports short_port_frame \<noteq> Some (67, 68)" by code_simp
  have b: "frame_ports ([0,0,0,0,0,0,0,0,0,0,0,0,8,0]
                        @ [0x45,0,0,28,0,0,0,0,64,17,0,0,10,0,0,1,10,0,0,2]
                        @ [0,68,0,67,0,8,0,0]) = Some (68, 67)"
    by (simp add: frame_ports_def frame_udp_def be_int_def)
  show ?thesis
    using C7_frame_discarded [of short_port_frame "Some 7" 0 "[]"]
          C7_frame_discarded
            [of "[0,0,0,0,0,0,0,0,0,0,0,0,8,0]
                 @ [0x45,0,0,28,0,0,0,0,64,17,0,0,10,0,0,1,10,0,0,2]
                 @ [0,68,0,67,0,8,0,0]" "Some 7" 0 "[]"]
          a b
    by simp
qed

text \<open>
  C7, as the claim has it, fails: the cut-off frame has source port 68, not 67, and
  reading its destination port at line 225 raises \<open>struct.error\<close>.
\<close>

theorem C7_cut_off_ports_counterexample:
  "frame_src_port short_port_frame = Some 68
   \<and> extract_dhcp short_port_frame = Caught StructError
   \<and> receive_frame (Some 7) 0 short_port_frame = Caught StructError"
  by code_simp

text \<open>
  A frame of 14 to 23 bytes has no protocol byte to compare: line 216 raises IndexError,
  which the handler of line 250 reports before the loop goes on to the next frame.
\<close>

lemma extract_dhcp_missing_protocol_byte:
  "extract_dhcp (replicate 20 0) = Caught IndexError"
  by (simp add: extract_dhcp_def index_def)

lemma receive_frame_Got:
  "receive_frame (Some x) rnd packet = Got p
     \<longleftrightarrow> decode_event (Recv packet rnd) = Some p \<and> xid p = x"
  by (auto simp: receive_frame_def split: outcome.splits sum.splits if_splits)

text \<open>
  C8. With the filter set to the request's xid, what \<open>receive\<close> returns is the first
  message, in arrival order, among those the loop decodes whose xid is the request's:
  every decoded message with another xid is passed over wherever it stands, and nothing
  after the first match has any part in the result.
\<close>

theorem C8_first_matching_xid:
  "receive_loop (Some x) evs
     = find (\<lambda>p. xid p = x) (List.map_filter decode_event evs)"
proof (induction evs)
  case Nil
  show ?case by simp
next
  case (Cons ev evs)
  show ?case
  proof (cases ev)
    case NotReady
    with Cons show ?thesis by simp
  next
    case (RecvRaises e)
    with Cons show ?thesis by simp
  next
    case (Recv packet rnd)
    show ?thesis
    proof (cases "receive_frame (Some x) rnd packet")
      case (Got p)
      then have "decode_event (Recv packet rnd) = Some p" "xid p = x"
        by (simp_all add: receive_frame_Got)
      with Got Recv show ?thesis by simp
    next
      case Skip
      then have "\<And>p. decode_event (Recv packet rnd) = Some p \<Longrightarrow> xid p \<noteq> x"
        using receive_frame_Got [of x rnd packet] by auto
      with Skip Recv Cons show ?thesis
        by (cases "decode_event (Recv packet rnd)") simp_all
    next
      case (Caught e)
      then have "\<And>p. decode_event (Recv packet rnd) = Some p \<Longrightarrow> xid p \<noteq> x"
        using receive_frame_Got [of x rnd packet] by auto
      with Caught Recv Cons show ?thesis
        by (cases "decode_event (Recv packet rnd)") simp_all
    qed
  qed
qed

section \<open>scan_dhcp_options: theorems\<close>

lemma receive_loop_RecvRaises:
  "receive_loop flt (pre @ RecvRaises e # post) = receive_loop flt (pre @ post)"
proof (induction pre)
  case Nil
  show ?case by simp
next
  case (Cons ev pre)
  then show ?case by (cases ev) (simp_all split: outcome.splits)
qed

text \<open>
  C9, as the code has it. \<open>scan_dhcp_options\<close> has two outcomes for its caller, a result
  and \<open>None\<close>. It returns a result exactly when the listener started, the send raised
  nothing, the receive loop returned a reply and the interpretation of the reply's
  options came to its end; the result then carries that reply and those options. A
  listener that does not start, a send that raises and a receive loop that runs out of
  time all return the same \<open>None\<close>. A \<open>recv\<close> that raises is caught inside the loop, which
  polls on as if that turn had not been.
\<close>

theorem C9_scan_outcomes:
  "(scan_dhcp_options iface mac_a xid_a start_ok send_raises evs = Some r
      \<longleftrightarrow> start_ok \<and> send_raises = None
          \<and> (\<exists>resp parsed_options.
                receive True (Some xid_a) evs = Some resp
                \<and> interpret_options (options resp) Map.empty = Inr parsed_options
                \<and> r = \<lparr>response = resp, parsed = parsed_options,
                        interface = iface, mac = mac_a\<rparr>))
   \<and> (\<not> start_ok \<or> send_raises \<noteq> None \<or> receive True (Some xid_a) evs = None
        \<longrightarrow> scan_dhcp_options iface mac_a xid_a start_ok send_raises evs = None)
   \<and> receive True flt (pre @ RecvRaises e # post) = receive True flt (pre @ post)"
proof (intro conjI)
  show "scan_dhcp_options iface mac_a xid_a start_ok send_raises evs = Some r
      \<longleftrightarrow> start_ok \<and> send_raises = None
          \<and> (\<exists>resp parsed_options.
                receive True (Some xid_a) evs = Some resp
                \<and> interpret_options (options resp) Map.empty = Inr parsed_options
                \<and> r = \<lparr>response = resp, parsed = parsed_options,
                        interface = iface, mac = mac_a\<rparr>)"
    by (auto simp: scan_dhcp_options_def split: option.splits sum.splits)
  show "\<not> start_ok \<or> send_raises \<noteq> None \<or> receive True (Some xid_a) evs = None
        \<longrightarrow> scan_dhcp_options iface mac_a xid_a start_ok send_raises evs = None"
    by (auto simp: scan_dhcp_options_def split: option.splits)
  show "receive True flt (pre @ RecvRaises e # post) = receive True flt (pre @ post)"
    by (simp add: receive_def receive_loop_RecvRaises)
qed

text \<open>
  The witness: an OFFER that arrives after an idle turn and a failed \<open>recv\<close> gives a
  result; the same loop without the OFFER gives \<open>None\<close>.
\<close>

theorem C9_scan_outcomes_witness:
  "scan_dhcp_options ''eth0'' [0xaa, 0xbb, 0xcc, 0xdd, 0xee, 0xff] 0xdeadbeef True None
     [NotReady, RecvRaises OSError, Recv (reply_frame 2 [0xde, 0xad, 0xbe, 0xef] 2) 0]
     = Some \<lparr>response = reply_packet 2 0xdeadbeef 2, parsed = [53 \<mapsto> ''OFFER''],
             interface = ''eth0'', mac = [0xaa, 0xbb, 0xcc, 0xdd, 0xee, 0xff]\<rparr>
   \<and> scan_dhcp_options ''eth0'' [0xaa, 0xbb, 0xcc, 0xdd, 0xee, 0xff] 0xdeadbeef True None
        [NotReady, RecvRaises OSError] = None
   \<and> receive True (Some 0xdeadbeef)
        [NotReady, RecvRaises OSError, Recv (reply_frame 2 [0xde, 0xad, 0xbe, 0xef] 2) 0]
       = receive True (Some 0xdeadbeef)
           [NotReady, Recv (reply_frame 2 [0xde, 0xad, 0xbe, 0xef] 2) 0]"
proof -
  have rc: "receive True (Some 0xdeadbeef)
              [NotReady, RecvRaises OSError, Recv (reply_frame 2 [0xde, 0xad, 0xbe, 0xef] 2) 0]
            = Some (reply_packet 2 0xdeadbeef 2)"
    by code_simp
  have io: "interpret_options (options (reply_packet 2 0xdeadbeef 2)) Map.empty
              = Inr [53 \<mapsto> ''OFFER'']"
    by (simp add: reply_packet_def interpret_option_def msg_types_def bindE_def)
  have rn: "receive True (Some 0xdeadbeef) [NotReady, RecvRaises OSError] = None"
    by (simp add: receive_def)
  show ?thesis
    using C9_scan_outcomes [of "''eth0''" "[0xaa, 0xbb, 0xcc, 0xdd, 0xee, 0xff]" "0xdeadbeef" True None
                 "[NotReady, RecvRaises OSError, Recv (reply_frame 2 [0xde, 0xad, 0xbe, 0xef] 2) 0]"
                 "\<lparr>response = reply_packet 2 0xdeadbeef 2, parsed = [53 \<mapsto> ''OFFER''],
                   interface = ''eth0'', mac = [0xaa, 0xbb, 0xcc, 0xdd, 0xee, 0xff]\<rparr>"
                 "Some 0xdeadbeef" "[NotReady]" OSError
                 "[Recv (reply_frame 2 [0xde, 0xad, 0xbe, 0xef] 2) 0]"]
          C9_scan_outcomes [of "''eth0''" "[0xaa, 0xbb, 0xcc, 0xdd, 0xee, 0xff]" "0xdeadbeef" True None
                 "[NotReady, RecvRaises OSError]"
                 "\<lparr>response = reply_packet 2 0xdeadbeef 2, parsed = [53 \<mapsto> ''OFFER''],
                   interface = ''eth0'', mac = [0xaa, 0xbb, 0xcc, 0xdd, 0xee, 0xff]\<rparr>"
                 "Some 0xdeadbeef" "[NotReady]" OSError "[]"]
          rc io rn
    by simp
qed

text \<open>
  C9, as the claim has it, fails: a send that raises OSError is a channel error, an empty
  receive loop is a timeout, and the caller gets the same value from both.
\<close>

theorem C9_error_and_timeout_counterexample:
  "spec_terminal True (Some OSError) 7 [] = ChannelError
   \<and> spec_terminal True None 7 [] = TimedOut
   \<and> scan_dhcp_options ''eth0'' [2,0,0,0,0,1] 7 True (Some OSError) []
       = scan_dhcp_options ''eth0'' [2,0,0,0,0,1] 7 True None []"
  by (simp add: spec_terminal_def scan_dhcp_options_def receive_def)

section \<open>DHCPPacket: theorems\<close>

subsection \<open>Big-endian fields\<close>

lemma be_int_snoc: "be_int (bs @ [b]) = be_int bs * 256 + uint b"
  by (simp add: be_int_def)

lemma be_int_Nil: "be_int [] = 0"
  by (simp add: be_int_def)

lemma uint_byte_bounds: "0 \<le> uint (b :: byte) \<and> uint b < 256"
  using uint_bounded [of b] by simp

lemma be_int_bounds: "0 \<le> be_int bs \<and> be_int bs < 256 ^ length bs"
proof (induction bs rule: rev_induct)
  case Nil
  show ?case by (simp add: be_int_Nil)
next
  case (snoc b bs)
  have b: "0 \<le> uint b" "uint b < 256" using uint_byte_bounds [of b] by simp_all
  from snoc have "be_int bs + 1 \<le> 256 ^ length bs" by simp
  then have "(be_int bs + 1) * 256 \<le> 256 ^ length bs * 256" by (rule mult_right_mono) simp
  with snoc b show ?case by (simp add: be_int_snoc algebra_simps)
qed

lemma length_be_bytes: "length (be_bytes n v) = n"
  by (induction n arbitrary: v) simp_all

lemma be_int_be_bytes: "0 \<le> v \<Longrightarrow> v < 256 ^ n \<Longrightarrow> be_int (be_bytes n v) = v"
proof (induction n arbitrary: v)
  case 0
  then show ?case by (simp add: be_int_Nil)
next
  case (Suc n)
  define k :: int where "k = 256 ^ n"
  have "v < 256 * k" using Suc.prems by (simp add: k_def)
  then have "v div 256 < k" by arith
  then have "v div 256 < 256 ^ n" by (simp add: k_def)
  moreover have "0 \<le> v div 256" using Suc.prems by simp
  ultimately have "be_int (be_bytes n (v div 256)) = v div 256" by (rule Suc.IH [rotated])
  moreover have "uint (word_of_int (v mod 256) :: byte) = v mod 256"
    by (simp add: uint_word_of_int)
  ultimately show ?case by (simp add: be_int_snoc)
qed

lemma be_bytes_be_int: "be_bytes (length bs) (be_int bs) = bs"
proof (induction bs rule: rev_induct)
  case Nil
  show ?case by simp
next
  case (snoc b bs)
  have b: "0 \<le> uint b" "uint b < 256" using uint_byte_bounds [of b] by simp_all
  then have d: "(be_int bs * 256 + uint b) div 256 = be_int bs"
    and m: "(be_int bs * 256 + uint b) mod 256 = uint b" by simp_all
  have w: "word_of_int (uint b mod 256) = b" using b by simp
  show ?case using snoc by (simp add: be_int_snoc d w)
qed

lemma ntoa_L_be_int: "length bs = 4 \<Longrightarrow> ntoa_L (be_int bs) = inet_ntoa bs"
  using be_int_bounds [of bs] be_bytes_be_int [of bs]
  by (simp add: ntoa_L_def pack_uint_def bindE_def)



subsection \<open>unpack on short input\<close>

lemma unpack_short: "length data < 236 \<Longrightarrow> unpack rnd data = Inl StructError"
  by (simp add: unpack_def slice_def Let_def)

lemma unpack_long:
  assumes l: "236 \<le> length data"
  shows "\<exists>p. unpack rnd data = Inr p \<and> options p = parse_options (drop 240 data)"
proof -
  define hdr where "hdr = slice 0 236 data"
  have lh: "length hdr = 236" using l by (simp add: hdr_def slice_def)
  have "length (slice 12 16 hdr) = 4" "length (slice 16 20 hdr) = 4"
    "length (slice 20 24 hdr) = 4" "length (slice 24 28 hdr) = 4"
    using lh by (simp_all add: slice_def)
  then obtain ci yi si gi where
    "ntoa_L (be_int (slice 12 16 hdr)) = Inr ci" "ntoa_L (be_int (slice 16 20 hdr)) = Inr yi"
    "ntoa_L (be_int (slice 20 24 hdr)) = Inr si" "ntoa_L (be_int (slice 24 28 hdr)) = Inr gi"
    by (simp add: ntoa_L_be_int inet_ntoa_def)
  then show ?thesis using lh
    by (simp add: unpack_def Let_def hdr_def [symmetric] bindE_def)
qed

text \<open>
  C6, as the code has it. \<open>unpack\<close> raises (\<open>struct.error\<close>) on fewer than 236 bytes.
  On 236 to 239 bytes it returns a message, with no options: it never looks for the
  cookie. Inputs that short do not reach it from the receive loop, which passes on only
  payloads of at least 240 bytes.
\<close>

theorem C6_unpack_length:
  "(length data < 236 \<longrightarrow> unpack rnd data = Inl StructError)
   \<and> (236 \<le> length data \<and> length data < 240
        \<longrightarrow> (\<exists>p. unpack rnd data = Inr p \<and> options p = []))
   \<and> (extract_dhcp packet = Got dhcp_data \<longrightarrow> 240 \<le> length dhcp_data)"
proof (intro conjI impI)
  assume "length data < 236"
  then show "unpack rnd data = Inl StructError" by (rule unpack_short)
next
  assume a: "236 \<le> length data \<and> length data < 240"
  then obtain p where "unpack rnd data = Inr p" "options p = parse_options (drop 240 data)"
    using unpack_long by blast
  with a show "\<exists>p. unpack rnd data = Inr p \<and> options p = []" by simp
next
  assume "extract_dhcp packet = Got dhcp_data"
  then show "240 \<le> length dhcp_data"
    by (auto simp: extract_dhcp_def Let_def split: if_splits sum.splits)
qed

theorem C6_unpack_length_witness:
  "unpack 7 [] = Inl StructError
   \<and> (\<exists>p. unpack 7 (replicate 238 1) = Inr p \<and> options p = [])
   \<and> 240 \<le> length (drop 42 (reply_frame 2 [0xde, 0xad, 0xbe, 0xef] 2))"
proof -
  have e: "extract_dhcp (reply_frame 2 [0xde, 0xad, 0xbe, 0xef] 2)
             = Got (drop 42 (reply_frame 2 [0xde, 0xad, 0xbe, 0xef] 2))"
    by code_simp
  show ?thesis
    using C6_unpack_length [of "[]" 7 "reply_frame 2 [0xde, 0xad, 0xbe, 0xef] 2"
                               "drop 42 (reply_frame 2 [0xde, 0xad, 0xbe, 0xef] 2)"]
          C6_unpack_length [of "replicate 238 1" 7 "reply_frame 2 [0xde, 0xad, 0xbe, 0xef] 2"
                               "drop 42 (reply_frame 2 [0xde, 0xad, 0xbe, 0xef] 2)"]
          e
    by simp
qed

text \<open>
  C6, as the claim has it, fails: 238 bytes, two more than the fixed section and two
  fewer than fixed section and cookie, decode to a message.
\<close>

theorem C6_238_bytes_counterexample:
  "unpack 7 (replicate 238 1) =
     Inr \<lparr>op = 1, htype = 1, hlen = 1, hops = 1, xid = 16843009, secs = 257, flags = 257,
          ciaddr = ''1.1.1.1'', yiaddr = ''1.1.1.1'', siaddr = ''1.1.1.1'',
          giaddr = ''1.1.1.1'', chaddr = replicate 16 1, sname = replicate 64 1,
          file_fld = replicate 128 1, options = []\<rparr>"
  by code_simp

subsection \<open>Round trip\<close>

lemma pack_uint_be_int: "pack_uint (length a) (be_int a) = Inr a"
  using be_int_bounds [of a] be_bytes_be_int [of a] by (simp add: pack_uint_def)

lemma canonicalD:
  assumes "canonical aton s"
  obtains a where "aton s = Some a" "length a = 4" "inet_ntoa a = Inr s"
  using assms by (auto simp: canonical_def split: option.splits)

lemma inet_aton_L_canonical:
  "aton s = Some a \<Longrightarrow> length a = 4 \<Longrightarrow> inet_aton_L aton s = Inr (be_int a)"
  by (simp add: inet_aton_L_def unpack_uint_def)

lemma ljust_rstrip0: "ljust (length s) (rstrip0 s) = s"
proof -
  have z: "rev (takeWhile (\<lambda>b. b = 0) (rev s))
             = replicate (length (takeWhile (\<lambda>b. b = 0) (rev s))) 0"
  proof -
    have "\<forall>x \<in> set (takeWhile (\<lambda>b. b = 0) (rev s)). x = 0"
      by (auto dest: set_takeWhileD)
    then have "takeWhile (\<lambda>b. b = 0) (rev s)
                 = replicate (length (takeWhile (\<lambda>b. b = 0) (rev s))) 0"
      by (simp add: replicate_length_same)
    then show ?thesis by (metis rev_replicate)
  qed
  have "rev s = takeWhile (\<lambda>b. b = 0) (rev s) @ dropWhile (\<lambda>b. b = 0) (rev s)"
    by simp
  then have s: "s = rev (dropWhile (\<lambda>b. b = 0) (rev s)) @ rev (takeWhile (\<lambda>b. b = 0) (rev s))"
    by (metis rev_append rev_rev_ident)
  have "length s = length (dropWhile (\<lambda>b. b = 0) (rev s))
                    + length (takeWhile (\<lambda>b. b = 0) (rev s))"
    by (metis add.commute length_append length_rev takeWhile_dropWhile_id)
  then have "length s - length (dropWhile (\<lambda>b. b = 0) (rev s))
               = length (takeWhile (\<lambda>b. b = 0) (rev s))" by simp
  then have "ljust (length s) (rstrip0 s)
        = rev (dropWhile (\<lambda>b. b = 0) (rev s)) @ rev (takeWhile (\<lambda>b. b = 0) (rev s))"
    by (simp add: ljust_def rstrip0_def z [symmetric])
  with s show ?thesis by simp
qed

lemma parse_options_plain:
  "list_all plain_option body \<Longrightarrow>
     parse_options (concat (map enc_option body) @ 0xff # rest) = body"
proof (induction body)
  case Nil
  show ?case by simp
next
  case (Cons opt body)
  obtain c d where opt: "opt = (c, d)" by (cases opt)
  have po: "plain_option (c, d) = (1 \<le> c \<and> c \<le> 254 \<and> length d \<le> 255)"
    by (simp add: plain_option_def)
  from Cons.prems have c: "1 \<le> c" "c \<le> 254" and d: "length d \<le> 255"
    and b: "list_all plain_option body" by (simp_all add: opt po)
  have uc: "uint (word_of_int c :: byte) = c" using c by (simp add: uint_word_of_int)
  have c0: "(word_of_int c :: byte) \<noteq> 0"
  proof
    assume "(word_of_int c :: byte) = 0"
    then have "uint (word_of_int c :: byte) = 0" by simp
    with uc c show False by simp
  qed
  have c255: "(word_of_int c :: byte) \<noteq> 255"
  proof
    assume "(word_of_int c :: byte) = 255"
    then have "uint (word_of_int c :: byte) = 255" by simp
    with uc c show False by simp
  qed
  have ul: "unat (of_nat (length d) :: byte) = length d"
    using d by (simp add: unat_of_nat)
  have enc: "enc_option (c, d) = word_of_int c # of_nat (length d) # d"
    using c by (simp add: enc_option_def)
  show ?case using Cons.IH [OF b] by (simp add: opt enc c0 c255 uc ul)
qed


lemma slices14:
  fixes f1 :: "'a list"
  assumes "length f1 = 1" "length f2 = 1" "length f3 = 1" "length f4 = 1" "length f5 = 4"
    "length f6 = 2" "length f7 = 2" "length f8 = 4" "length f9 = 4" "length f10 = 4"
    "length f11 = 4" "length f12 = 16" "length f13 = 64" "length f14 = 128"
    and H: "H = f1 @ f2 @ f3 @ f4 @ f5 @ f6 @ f7 @ f8 @ f9 @ f10 @ f11 @ f12 @ f13 @ f14"
  shows "length H = 236"
    and "slice 0 1 H = f1" and "slice 1 2 H = f2" and "slice 2 3 H = f3"
    and "slice 3 4 H = f4" and "slice 4 8 H = f5" and "slice 8 10 H = f6"
    and "slice 10 12 H = f7" and "slice 12 16 H = f8" and "slice 16 20 H = f9"
    and "slice 20 24 H = f10" and "slice 24 28 H = f11" and "slice 28 44 H = f12"
    and "slice 44 108 H = f13" and "slice 108 236 H = f14"
  using assms by (simp_all add: slice_def)


lemma pack_uint_4_be_int: "length a = 4 \<Longrightarrow> pack_uint 4 (be_int a) = Inr a"
  using pack_uint_be_int [of a] by simp

lemma pack_well_formed:
  assumes wf: "well_formed aton m"
    and a: "aton (ciaddr m) = Some a1" "aton (yiaddr m) = Some a2"
           "aton (siaddr m) = Some a3" "aton (giaddr m) = Some a4"
    and l: "length a1 = 4" "length a2 = 4" "length a3 = 4" "length a4 = 4"
  shows "pack aton m =
           bindE (pack_option_section (options m))
             (\<lambda>opts. Inr (header_bytes a1 a2 a3 a4 m @ DHCP_MAGIC_COOKIE @ opts))"
proof -
  have at: "inet_aton_L aton (ciaddr m) = Inr (be_int a1)"
    "inet_aton_L aton (yiaddr m) = Inr (be_int a2)"
    "inet_aton_L aton (siaddr m) = Inr (be_int a3)"
    "inet_aton_L aton (giaddr m) = Inr (be_int a4)"
    using a l by (simp_all add: inet_aton_L_canonical)
  have pa: "pack_uint 4 (be_int a1) = Inr a1" "pack_uint 4 (be_int a2) = Inr a2"
    "pack_uint 4 (be_int a3) = Inr a3" "pack_uint 4 (be_int a4) = Inr a4"
    using l by (simp_all add: pack_uint_4_be_int)
  have pi: "pack_uint (Suc 0) (op m) = Inr (be_bytes (Suc 0) (op m))"
    "pack_uint (Suc 0) (htype m) = Inr (be_bytes (Suc 0) (htype m))"
    "pack_uint (Suc 0) (hlen m) = Inr (be_bytes (Suc 0) (hlen m))"
    "pack_uint (Suc 0) (hops m) = Inr (be_bytes (Suc 0) (hops m))"
    "pack_uint 4 (xid m) = Inr (be_bytes 4 (xid m))"
    "pack_uint 2 (secs m) = Inr (be_bytes 2 (secs m))"
    "pack_uint 2 (flags m) = Inr (be_bytes 2 (flags m))"
    using wf by (simp_all add: well_formed_def pack_uint_def)
  have ps: "pack_s 16 (chaddr m) = chaddr m" "pack_s 64 (sname m) = sname m"
    "pack_s 128 (file_fld m) = file_fld m"
    using wf by (simp_all add: well_formed_def pack_s_def)
  show ?thesis
    by (simp add: pack_def at pa pi ps bindE_def header_bytes_def cong: sum.case_cong)
qed

lemma unpack_header_bytes:
  assumes wf: "well_formed aton m"
    and l: "length a1 = 4" "length a2 = 4" "length a3 = 4" "length a4 = 4"
    and n: "inet_ntoa a1 = Inr (ciaddr m)" "inet_ntoa a2 = Inr (yiaddr m)"
           "inet_ntoa a3 = Inr (siaddr m)" "inet_ntoa a4 = Inr (giaddr m)"
  shows "unpack rnd (header_bytes a1 a2 a3 a4 m @ DHCP_MAGIC_COOKIE @ opts)
           = Inr (m\<lparr>options := parse_options opts\<rparr>)"
proof -
  define H where "H = header_bytes a1 a2 a3 a4 m"
  have wl: "length (chaddr m) = 16" "length (sname m) = 64" "length (file_fld m) = 128"
    using wf by (simp_all add: well_formed_def)
  note sl = slices14 [OF length_be_bytes length_be_bytes length_be_bytes length_be_bytes
      length_be_bytes length_be_bytes length_be_bytes l wl
      H_def [unfolded header_bytes_def]]
  have lenH: "length H = 236" by (rule sl(1))
  have s0: "slice 0 236 (H @ DHCP_MAGIC_COOKIE @ opts) = H"
    using lenH by (simp add: slice_def)
  have d0: "drop 240 (H @ DHCP_MAGIC_COOKIE @ opts) = opts"
    using lenH by (simp add: DHCP_MAGIC_COOKIE_def)
  have r: "0 \<le> op m" "op m < 256 ^ 1" "0 \<le> htype m" "htype m < 256 ^ 1"
    "0 \<le> hlen m" "hlen m < 256 ^ 1" "0 \<le> hops m" "hops m < 256 ^ 1"
    "0 \<le> xid m" "xid m < 256 ^ 4" "0 \<le> secs m" "secs m < 256 ^ 2"
    "0 \<le> flags m" "flags m < 256 ^ 2" and x0: "xid m \<noteq> 0"
    using wf by (simp_all add: well_formed_def)
  have bi: "be_int (be_bytes 1 (op m)) = op m" "be_int (be_bytes 1 (htype m)) = htype m"
    "be_int (be_bytes 1 (hlen m)) = hlen m" "be_int (be_bytes 1 (hops m)) = hops m"
    "be_int (be_bytes 4 (xid m)) = xid m" "be_int (be_bytes 2 (secs m)) = secs m"
    "be_int (be_bytes 2 (flags m)) = flags m"
    using r by (simp_all only: be_int_be_bytes)
  have na: "ntoa_L (be_int a1) = Inr (ciaddr m)" "ntoa_L (be_int a2) = Inr (yiaddr m)"
    "ntoa_L (be_int a3) = Inr (siaddr m)" "ntoa_L (be_int a4) = Inr (giaddr m)"
    using l n by (simp_all add: ntoa_L_be_int)
  have c0: "chaddr m \<noteq> []" using wl by auto
  have lj: "ljust 64 (rstrip0 (sname m)) = sname m"
    "ljust 128 (rstrip0 (file_fld m)) = file_fld m"
    using ljust_rstrip0 [of "sname m"] ljust_rstrip0 [of "file_fld m"] wl by simp_all
  have "unpack rnd (H @ DHCP_MAGIC_COOKIE @ opts)
          = Inr \<lparr>op = op m, htype = htype m, hlen = hlen m, hops = hops m, xid = xid m,
                 secs = secs m, flags = flags m, ciaddr = ciaddr m, yiaddr = yiaddr m,
                 siaddr = siaddr m, giaddr = giaddr m, chaddr = chaddr m, sname = sname m,
                 file_fld = file_fld m, options = parse_options opts\<rparr>"
    unfolding unpack_def Let_def s0 d0 sl(2-15) bi na
    using lenH x0 c0 by (simp add: bindE_def DHCPPacket_init_def lj)
  then show ?thesis by (simp add: H_def)
qed


text \<open>
  C1, as the code has it. For a well-formed message whose options are plain ones,
  followed or not by one End entry, \<open>pack\<close> succeeds, its output ends with the End byte,
  and \<open>unpack\<close> of it gives back every fixed field and the plain options, in order. The
  End entry is not among the decoded options: \<open>_parse_options\<close> stops at the End byte and
  never returns it.
\<close>

theorem C1_round_trip:
  assumes wf: "well_formed aton m"
    and o: "options m = body @ e" "list_all plain_option body" "e = [] \<or> e = [(255, [])]"
  shows "\<exists>bs. pack aton m = Inr bs \<and> last bs = 0xff
              \<and> unpack rnd bs = Inr (m\<lparr>options := body\<rparr>)"
proof -
  from wf obtain a1 a2 a3 a4 where
    a: "aton (ciaddr m) = Some a1" "aton (yiaddr m) = Some a2"
       "aton (siaddr m) = Some a3" "aton (giaddr m) = Some a4"
    and l: "length a1 = 4" "length a2 = 4" "length a3 = 4" "length a4 = 4"
    and n: "inet_ntoa a1 = Inr (ciaddr m)" "inet_ntoa a2 = Inr (yiaddr m)"
           "inet_ntoa a3 = Inr (siaddr m)" "inet_ntoa a4 = Inr (giaddr m)"
    unfolding well_formed_def by (auto elim!: canonicalD)
  have ok: "list_all option_ok body"
    using o(2) by (induction body) (auto simp: plain_option_def option_ok_def)
  have n255: "\<not> list_ex (\<lambda>opt. fst opt = 255) body"
    using o(2) by (induction body) (auto simp: plain_option_def)
  have sec: "pack_option_section (options m) = Inr (concat (map enc_option body) @ [0xff])"
    using o(3) ok n255
    by (auto simp: pack_option_section_def pack_options_eq bindE_def o(1) option_ok_def
          enc_option_def)
  let ?opts = "concat (map enc_option body) @ [0xff]"
  let ?bs = "header_bytes a1 a2 a3 a4 m @ DHCP_MAGIC_COOKIE @ ?opts"
  have p: "pack aton m = Inr ?bs"
    by (simp add: pack_well_formed [OF wf a l] sec bindE_def)
  have "parse_options ?opts = body"
    using parse_options_plain [OF o(2), of "[]"] by simp
  then have u: "unpack rnd ?bs = Inr (m\<lparr>options := body\<rparr>)"
    by (simp only: unpack_header_bytes [OF wf l n])
  have "last ?bs = 0xff" by simp
  with p u show ?thesis by blast
qed

theorem C1_round_trip_witness:
  "\<exists>bs. pack aton_dotted example_discover = Inr bs \<and> last bs = 0xff
        \<and> unpack 0 bs = Inr (example_discover\<lparr>options := butlast (options example_discover)\<rparr>)"
proof -
  have wf: "well_formed aton_dotted example_discover" by code_simp
  have o: "options example_discover = butlast (options example_discover) @ [(255, [])]"
    by code_simp
  have pl: "list_all plain_option (butlast (options example_discover))" by code_simp
  show ?thesis
    using C1_round_trip [OF wf o pl, of 0] by simp
qed

text \<open>
  C1, as the claim has it, fails on the scanner's own DISCOVER: it is well formed, its
  option list ends with End, and the decoded option list is the list without its End.
\<close>

theorem C1_discover_counterexample:
  "well_formed aton_dotted example_discover
   \<and> last (options example_discover) = (255, [])
   \<and> bindE (pack aton_dotted example_discover) (unpack 0)
       = Inr (example_discover\<lparr>options := butlast (options example_discover)\<rparr>)
   \<and> butlast (options example_discover) \<noteq> options example_discover"
  by code_simp

text \<open>
  A transaction id of 0 does not come back either: \<open>unpack\<close> builds the message with
  \<open>__init__\<close>, whose \<open>xid or random.randint(...)\<close> replaces a 0 by a random number.
\<close>

lemma unpack_xid_zero_is_random: "map_sum id xid (unpack 7 (replicate 240 0)) = Inr 7"
  by code_simp

section \<open>The receive loop accepts any message type\<close>

text \<open>
  C10. A frame that passes the checks of lines 209-237 and decodes to a message with the
  request's xid is returned by \<open>receive\<close>: the statement asks nothing of the \<open>op\<close> field
  or of option 53, and the loop looks at neither. The witness is a request (\<open>op\<close> = 1)
  carrying message type 6, a NAK.
\<close>

theorem C10_any_message_type_accepted:
  "extract_dhcp packet = Got dhcp_data \<Longrightarrow> unpack rnd dhcp_data = Inr p \<Longrightarrow> xid p = x
   \<Longrightarrow> receive_frame (Some x) rnd packet = Got p
       \<and> receive_loop (Some x) (Recv packet rnd # evs) = Some p"
  by (simp add: receive_frame_def)

theorem C10_any_message_type_accepted_witness:
  "receive_frame (Some 0xdeadbeef) 0 (reply_frame 1 [0xde, 0xad, 0xbe, 0xef] 6)
     = Got (reply_packet 1 0xdeadbeef 6)
   \<and> receive_loop (Some 0xdeadbeef) [Recv (reply_frame 1 [0xde, 0xad, 0xbe, 0xef] 6) 0]
       = Some (reply_packet 1 0xdeadbeef 6)
   \<and> op (reply_packet 1 0xdeadbeef 6) = 1
   \<and> options (reply_packet 1 0xdeadbeef 6) = [(53, [6])]"
proof -
  have e: "extract_dhcp (reply_frame 1 [0xde, 0xad, 0xbe, 0xef] 6)
             = Got (drop 42 (reply_frame 1 [0xde, 0xad, 0xbe, 0xef] 6))"
    by code_simp
  have u: "unpack 0 (drop 42 (reply_frame 1 [0xde, 0xad, 0xbe, 0xef] 6))
             = Inr (reply_packet 1 0xdeadbeef 6)"
    by code_simp
  have x: "xid (reply_packet 1 0xdeadbeef 6) = 0xdeadbeef"
    by (simp add: reply_packet_def)
  show ?thesis
    using C10_any_message_type_accepted [OF e u x, of "[]"]
    by (simp add: reply_packet_def)
qed

text \<open>
  A run of C8: a reply to another transaction, an idle turn, then two replies to ours.
  The first of the two, an ACK, is the result; the OFFER after it is never looked at.
\<close>

theorem C8_first_matching_xid_witness:
  "receive_loop (Some 0xdeadbeef)
     [Recv (reply_frame 2 [0x11, 0x22, 0x33, 0x44] 2) 0, NotReady,
      Recv (reply_frame 2 [0xde, 0xad, 0xbe, 0xef] 5) 0,
      Recv (reply_frame 2 [0xde, 0xad, 0xbe, 0xef] 2) 0]
   = Some (reply_packet 2 0xdeadbeef 5)"
proof -
  have "find (\<lambda>p. xid p = 0xdeadbeef)
          (List.map_filter decode_event
             [Recv (reply_frame 2 [0x11, 0x22, 0x33, 0x44] 2) 0, NotReady,
              Recv (reply_frame 2 [0xde, 0xad, 0xbe, 0xef] 5) 0,
              Recv (reply_frame 2 [0xde, 0xad, 0xbe, 0xef] 2) 0])
        = Some (reply_packet 2 0xdeadbeef 5)"
    by code_simp
  then show ?thesis
    by (simp only: C8_first_matching_xid)
qed

end
